theory Spec2Isabelle
  imports Main
begin

section \<open>Strings and numbers of the host language\<close>

text \<open>
  A JavaScript string is modelled as a \<^typ>\<open>string\<close> whose characters are code units
  below 256. Numbers that the program handles (indices, identifiers, rating values) are
  integers and are modelled as \<^typ>\<open>int\<close>.
\<close>

definition digit_char :: "nat \<Rightarrow> char" where
  "digit_char d = ''0123456789'' ! d"

fun string_of_nat :: "nat \<Rightarrow> string" where
  "string_of_nat n =
     (if n < 10 then [digit_char n] else string_of_nat (n div 10) @ [digit_char (n mod 10)])"

declare string_of_nat.simps [simp del]

text \<open>The decimal text of an integer, as a template literal or \<open>textContent\<close> renders it.\<close>

definition string_of_int :: "int \<Rightarrow> string" where
  "string_of_int i =
     (if i < 0 then CHR ''-'' # string_of_nat (nat (- i)) else string_of_nat (nat i))"

text \<open>\<open>xs[i]\<close> of an array: \<open>undefined\<close> (here \<open>None\<close>) outside the array.\<close>

definition at :: "'a list \<Rightarrow> int \<Rightarrow> 'a option" where
  "at xs i = (if 0 \<le> i \<and> i < int (length xs) then Some (xs ! nat i) else None)"

fun first_index :: "('a \<Rightarrow> bool) \<Rightarrow> 'a list \<Rightarrow> nat option" where
  "first_index P [] = None"
| "first_index P (x # xs) =
     (if P x then Some 0 else map_option Suc (first_index P xs))"


section \<open>The survey runner (script.js)\<close>

subsection \<open>Survey definition and answers\<close>

text \<open>
  A question as the survey JSON gives it. The fields that only feed texts on the page
  (description, labels, placeholder) are left out; the type tag is a string in the source,
  and \<open>OtherType\<close> stands for every tag that no \<open>case\<close> of the source's switches names.
\<close>

datatype question_type = MultipleChoice | Rating | TextQuestion | OtherType

record question =
  qid :: int
  qtype :: question_type
  title :: string
  required :: bool
  options :: "string list"
  scale :: int

record survey_data =
  questions :: "question list"

text \<open>An entry of \<open>this.answers\<close>: an option's or the textarea's string, or a rating number.\<close>

datatype answer = Str string | Num int

text \<open>\<open>answer !== undefined && answer !== ''\<close>\<close>

fun hasAnswer :: "answer option \<Rightarrow> bool" where
  "hasAnswer None = False"
| "hasAnswer (Some (Str s)) = (s \<noteq> [])"
| "hasAnswer (Some (Num n)) = True"

text \<open>\<open>!previousAnswer\<close> on a recorded value: the empty string and zero are falsy.\<close>

fun falsy :: "answer \<Rightarrow> bool" where
  "falsy (Str s) = (s = [])"
| "falsy (Num n) = (n = 0)"

text \<open>The text of a value inside a template literal or assigned to \<open>textContent\<close>.\<close>

fun to_text :: "answer \<Rightarrow> string" where
  "to_text (Str s) = s"
| "to_text (Num n) = string_of_int n"


subsection \<open>The page\<close>

text \<open>
  The part of the document the program reads and writes: which screen is active, the
  \<open>disabled\<close> flags and the label of the navigation buttons, the content of
  \<open>options-container\<close> and of \<open>survey-summary\<close>. An element of the options container
  carries its \<open>data-value\<close> attribute, whether its class list holds \<open>selected\<close>, and the
  value its click handler writes into \<open>this.answers\<close> (the \<open>option\<close> or \<open>i\<close> of the
  closure). The container also remembers the question its handlers close over.
\<close>

datatype screen = WelcomeScreen | SurveyScreen | ResultsScreen

record element =
  data_value :: string
  selected :: bool
  writes :: answer

datatype widget =
    NoInputs
  | Options question "element list"
  | TextArea question string

datatype summary_view = Items "(string \<times> string) list" | NoResponsesRecorded

record app =
  surveyData :: survey_data
  currentQuestionIndex :: int
  answers :: "int \<rightharpoonup> answer"
  active :: screen
  prev_disabled :: bool
  next_disabled :: bool
  next_text :: string
  container :: widget
  summary :: summary_view

datatype js_error = TypeError | SyntaxError

text \<open>
  An event handler either runs to its end or throws; what it wrote before throwing stays
  written, so both outcomes carry the state.
\<close>

datatype outcome = Done app | Raised js_error app

fun state_of :: "outcome \<Rightarrow> app" where
  "state_of (Done s) = s"
| "state_of (Raised e s) = s"


subsection \<open>Selectors\<close>

text \<open>
  \<open>restorePreviousAnswer\<close> looks an element up with the selector text
  \<open>[data-value="X"]\<close>, where \<open>X\<close> is the recorded answer, interpolated as it is. Inside
  the double-quoted CSS string a quotation mark ends the string, a backslash starts an
  escape, a newline makes the token a bad string, and a NUL is replaced; an \<open>X\<close> free of
  these characters denotes itself, and the selector tests \<open>data-value = X\<close>. When a
  newline comes first the selector is invalid and \<open>querySelector\<close> throws a
  \<open>SyntaxError\<close>. When a quotation mark comes first the string ends there, and what
  follows must go on as an attribute selector does: white space, a modifier (\<open>i\<close> or
  \<open>s\<close>, possibly escaped or after a comment) or the closing bracket; any other character
  makes the selector invalid. Every remaining selector text is outside this fragment:
  the document's answer for it is a parameter of the model.
\<close>

definition dquote :: char where
  "dquote = CHR 0x22"

definition backslash :: char where
  "backslash = CHR 0x5C"

definition css_newline :: "char \<Rightarrow> bool" where
  "css_newline c = (c = CHR 0x0A \<or> c = CHR 0x0C \<or> c = CHR 0x0D)"

definition css_whitespace :: "char \<Rightarrow> bool" where
  "css_whitespace c = (css_newline c \<or> c = CHR 0x09 \<or> c = CHR 0x20)"

definition css_plain :: "char \<Rightarrow> bool" where
  "css_plain c = (c \<noteq> dquote \<and> c \<noteq> backslash \<and> c \<noteq> CHR 0x00 \<and> \<not> css_newline c)"

definition selector_text :: "string \<Rightarrow> string" where
  "selector_text X = ''[data-value='' @ [dquote] @ X @ [dquote] @ '']''"

datatype selector = AttrEquals string | InvalidSelector | OtherSelector

definition may_continue :: "char \<Rightarrow> bool" where
  "may_continue c = (c = CHR '']'' \<or> c = CHR ''i'' \<or> c = CHR ''I'' \<or> c = CHR ''s''
     \<or> c = CHR ''S'' \<or> c = backslash \<or> c = CHR ''/'')"

definition data_value_selector :: "string \<Rightarrow> selector" where
  "data_value_selector X =
     (case dropWhile css_plain X of
        [] \<Rightarrow> AttrEquals X
      | c # rest \<Rightarrow>
          if css_newline c then InvalidSelector
          else if c = dquote then
            (case dropWhile css_whitespace (rest @ [dquote] @ '']'') of
               [] \<Rightarrow> OtherSelector
             | d # _ \<Rightarrow> if may_continue d then OtherSelector else InvalidSelector)
          else OtherSelector)"

datatype query_result = Found nat | NotFound | Throws

text \<open>
  The document's \<open>querySelector\<close> on selector texts outside the fragment above, given
  the \<open>data-value\<close> attributes of the container's elements in document order.
\<close>

type_synonym document = "string \<Rightarrow> string list \<Rightarrow> query_result"

definition querySelector :: "document \<Rightarrow> string \<Rightarrow> string list \<Rightarrow> query_result" where
  "querySelector D X vals =
     (case data_value_selector X of
        AttrEquals v \<Rightarrow>
          (case first_index (\<lambda>d. d = v) vals of Some k \<Rightarrow> Found k | None \<Rightarrow> NotFound)
      | InvalidSelector \<Rightarrow> Throws
      | OtherSelector \<Rightarrow> D (selector_text X) vals)"


subsection \<open>Rendering a question\<close>

text \<open>
  \<open>createMultipleChoiceOptions\<close>: one element per option, in list order, each with the
  option as its \<open>data-value\<close> and as the value its handler records.
\<close>

definition createMultipleChoiceOptions :: "question \<Rightarrow> widget" where
  "createMultipleChoiceOptions q =
     Options q (map (\<lambda>opt. \<lparr>data_value = opt, selected = False, writes = Str opt\<rparr>) (options q))"

text \<open>\<open>createRatingOptions\<close>: the loop \<open>for (let i = 1; i <= question.scale; i++)\<close>.\<close>

definition createRatingOptions :: "question \<Rightarrow> widget" where
  "createRatingOptions q =
     Options q (map (\<lambda>i. \<lparr>data_value = string_of_int i, selected = False, writes = Num i\<rparr>)
       [1 .. scale q])"

definition createTextInput :: "question \<Rightarrow> widget" where
  "createTextInput q = TextArea q []"

text \<open>The switch of \<open>displayQuestion\<close> on the emptied container; it has no default case.\<close>

definition createInputs :: "question \<Rightarrow> widget" where
  "createInputs q =
     (case qtype q of
        MultipleChoice \<Rightarrow> createMultipleChoiceOptions q
      | Rating \<Rightarrow> createRatingOptions q
      | TextQuestion \<Rightarrow> createTextInput q
      | OtherType \<Rightarrow> NoInputs)"

text \<open>
  \<open>updateNavigationButtons\<close>. The previous button's flag is written before the current
  question's \<open>id\<close> is read, which throws when there is no current question.
\<close>

definition updateNavigationButtons :: "app \<Rightarrow> outcome" where
  "updateNavigationButtons s =
     (let i = currentQuestionIndex s; qs = questions (surveyData s);
          s1 = s\<lparr>prev_disabled := (i = 0)\<rparr>
      in case at qs i of
           None \<Rightarrow> Raised TypeError s1
         | Some currentQuestion \<Rightarrow>
             Done (s1\<lparr>next_disabled :=
                         (required currentQuestion
                            \<and> \<not> hasAnswer (answers s (qid currentQuestion))),
                       next_text :=
                         (if i = int (length qs) - 1 then ''Complete Survey'' else ''Next'')\<rparr>))"

text \<open>Marking the found element: \<open>classList.add('selected')\<close>.\<close>

definition add_selected :: "nat \<Rightarrow> element list \<Rightarrow> element list" where
  "add_selected k els = (if k < length els then els[k := (els ! k)\<lparr>selected := True\<rparr>] else els)"

fun data_values :: "widget \<Rightarrow> string list" where
  "data_values (Options q els) = map data_value els"
| "data_values w = []"

fun mark_found :: "nat \<Rightarrow> widget \<Rightarrow> widget" where
  "mark_found k (Options q els) = Options q (add_selected k els)"
| "mark_found k w = w"

fun set_text :: "string \<Rightarrow> widget \<Rightarrow> widget" where
  "set_text t (TextArea q v) = TextArea q t"
| "set_text t w = w"

text \<open>
  \<open>restorePreviousAnswer\<close>: nothing for a falsy recorded value; otherwise the first
  element matching the interpolated selector gets \<open>selected\<close> (multiple choice and rating
  alike), or the textarea gets the recorded text.
\<close>

definition restore_selected :: "document \<Rightarrow> answer \<Rightarrow> app \<Rightarrow> outcome" where
  "restore_selected D previousAnswer s =
     (case querySelector D (to_text previousAnswer) (data_values (container s)) of
        Found k \<Rightarrow> Done (s\<lparr>container := mark_found k (container s)\<rparr>)
      | NotFound \<Rightarrow> Done s
      | Throws \<Rightarrow> Raised SyntaxError s)"

definition restorePreviousAnswer :: "document \<Rightarrow> question \<Rightarrow> app \<Rightarrow> outcome" where
  "restorePreviousAnswer D q s =
     (case answers s (qid q) of
        None \<Rightarrow> Done s
      | Some previousAnswer \<Rightarrow>
          if falsy previousAnswer then Done s
          else
            (case qtype q of
               MultipleChoice \<Rightarrow> restore_selected D previousAnswer s
             | Rating \<Rightarrow> restore_selected D previousAnswer s
             | TextQuestion \<Rightarrow>
                 Done (s\<lparr>container := set_text (to_text previousAnswer) (container s)\<rparr>)
             | OtherType \<Rightarrow> Done s))"

text \<open>
  \<open>displayQuestion\<close>: reading \<open>question.title\<close> throws when the index is outside the
  list; otherwise the container is rebuilt for the question, the buttons are updated and
  the previous answer is restored.
\<close>

definition displayQuestion :: "document \<Rightarrow> app \<Rightarrow> outcome" where
  "displayQuestion D s =
     (case at (questions (surveyData s)) (currentQuestionIndex s) of
        None \<Rightarrow> Raised TypeError s
      | Some q \<Rightarrow>
          (case updateNavigationButtons (s\<lparr>container := createInputs q\<rparr>) of
             Raised e s1 \<Rightarrow> Raised e s1
           | Done s1 \<Rightarrow> restorePreviousAnswer D q s1))"


subsection \<open>Results\<close>

text \<open>
  \<open>displayResults\<close>: the \<open>forEach\<close> appends one summary item per question whose answer
  is neither \<open>undefined\<close> nor the empty string; an empty summary is replaced by the
  message "No responses recorded.".
\<close>

definition summary_item :: "(int \<rightharpoonup> answer) \<Rightarrow> (string \<times> string) list \<Rightarrow> question
    \<Rightarrow> (string \<times> string) list" where
  "summary_item ans children q =
     (case ans (qid q) of
        None \<Rightarrow> children
      | Some answer \<Rightarrow>
          if answer = Str [] then children
          else children @
            [(title q,
              if qtype q = Rating
              then to_text answer @ '' out of '' @ string_of_int (scale q)
              else to_text answer)])"

definition displayResults :: "question list \<Rightarrow> (int \<rightharpoonup> answer) \<Rightarrow> summary_view" where
  "displayResults qs ans =
     (let children = foldl (summary_item ans) [] qs
      in if length children = 0 then NoResponsesRecorded else Items children)"


subsection \<open>Navigation\<close>

definition showWelcomeScreen :: "app \<Rightarrow> app" where
  "showWelcomeScreen s = s\<lparr>active := WelcomeScreen\<rparr>"

definition showSurveyScreen :: "app \<Rightarrow> app" where
  "showSurveyScreen s = s\<lparr>active := SurveyScreen\<rparr>"

definition showResultsScreen :: "app \<Rightarrow> app" where
  "showResultsScreen s =
     s\<lparr>active := ResultsScreen,
       summary := displayResults (questions (surveyData s)) (answers s)\<rparr>"

definition startSurvey :: "document \<Rightarrow> app \<Rightarrow> outcome" where
  "startSurvey D s =
     displayQuestion D (showSurveyScreen (s\<lparr>currentQuestionIndex := 0, answers := Map.empty\<rparr>))"

definition previousQuestion :: "document \<Rightarrow> app \<Rightarrow> outcome" where
  "previousQuestion D s =
     (if currentQuestionIndex s > 0
      then displayQuestion D (s\<lparr>currentQuestionIndex := currentQuestionIndex s - 1\<rparr>)
      else Done s)"

definition completeSurvey :: "app \<Rightarrow> outcome" where
  "completeSurvey s = Done (showResultsScreen s)"

definition nextQuestion :: "document \<Rightarrow> app \<Rightarrow> outcome" where
  "nextQuestion D s =
     (if currentQuestionIndex s < int (length (questions (surveyData s))) - 1
      then displayQuestion D (s\<lparr>currentQuestionIndex := currentQuestionIndex s + 1\<rparr>)
      else completeSurvey s)"

definition restartSurvey :: "app \<Rightarrow> outcome" where
  "restartSurvey s =
     Done (showWelcomeScreen (s\<lparr>currentQuestionIndex := 0, answers := Map.empty\<rparr>))"


subsection \<open>Input handlers\<close>

text \<open>
  The click handler of the \<open>k\<close>-th option or rating element: every element of the
  container loses \<open>selected\<close>, the clicked one gets it, its value is written under the
  question's id, and the buttons are updated.
\<close>

definition select_only :: "nat \<Rightarrow> element list \<Rightarrow> element list" where
  "select_only k els = add_selected k (map (\<lambda>e. e\<lparr>selected := False\<rparr>) els)"

definition clickOption :: "nat \<Rightarrow> app \<Rightarrow> outcome" where
  "clickOption k s =
     (case container s of
        Options q els \<Rightarrow>
          if k < length els then
            updateNavigationButtons
              (s\<lparr>container := Options q (select_only k els),
                 answers := (answers s)(qid q \<mapsto> writes (els ! k))\<rparr>)
          else Done s
      | _ \<Rightarrow> Done s)"

text \<open>The \<open>input\<close> handler of the textarea, fired when its content has become \<open>t\<close>.\<close>

definition inputText :: "string \<Rightarrow> app \<Rightarrow> outcome" where
  "inputText t s =
     (case container s of
        TextArea q v \<Rightarrow>
          updateNavigationButtons
            (s\<lparr>container := TextArea q t, answers := (answers s)(qid q \<mapsto> Str t)\<rparr>)
      | _ \<Rightarrow> Done s)"


subsection \<open>Events\<close>

text \<open>
  What a user (or a caller of the handlers) can do. A disabled button dispatches no click
  event, so a click on a navigation button reaches its listener only while the button's
  \<open>disabled\<close> flag is off. \<open>goNext()\<close>, \<open>goPrevious()\<close>, \<open>start()\<close>, \<open>restart()\<close> and
  \<open>submitAnswer()\<close> of the specification are these events.
\<close>

datatype event =
    ClickStart
  | ClickPrev
  | ClickNext
  | ClickRestart
  | ClickOption nat
  | InputText string

fun fire :: "document \<Rightarrow> event \<Rightarrow> app \<Rightarrow> outcome" where
  "fire D ClickStart s = startSurvey D s"
| "fire D ClickPrev s = (if prev_disabled s then Done s else previousQuestion D s)"
| "fire D ClickNext s = (if next_disabled s then Done s else nextQuestion D s)"
| "fire D ClickRestart s = restartSurvey s"
| "fire D (ClickOption k) s = clickOption k s"
| "fire D (InputText t) s = inputText t s"

fun input_event :: "event \<Rightarrow> bool" where
  "input_event (ClickOption k) = True"
| "input_event (InputText t) = True"
| "input_event e = False"

text \<open>
  The state after \<open>init\<close>: the constructor's fields, the loaded definition, the welcome
  screen shown and nothing rendered yet. The markup of the page is not part of the
  sources, so the initial flags, label and summary are parameters.
\<close>

definition initial_app :: "survey_data \<Rightarrow> bool \<Rightarrow> bool \<Rightarrow> string \<Rightarrow> summary_view \<Rightarrow> app" where
  "initial_app sv pd nd lbl sm =
     \<lparr>surveyData = sv, currentQuestionIndex = 0, answers = Map.empty, active = WelcomeScreen,
      prev_disabled = pd, next_disabled = nd, next_text = lbl, container = NoInputs,
      summary = sm\<rparr>"

inductive reachable :: "document \<Rightarrow> survey_data \<Rightarrow> app \<Rightarrow> bool" for D sv where
  reachable_init: "reachable D sv (initial_app sv pd nd lbl sm)"
| reachable_step: "reachable D sv s \<Longrightarrow> reachable D sv (state_of (fire D e s))"

subsection \<open>The aggregation as specified\<close>

text \<open>
  The results aggregator in the specification's words: the pairs of question title and
  formatted answer, in question order, leaving out every question whose answer is absent
  or the empty string; a rating answer reads "value out of scale", any other answer is
  the recorded text itself; an empty sequence is signalled as such.
\<close>

definition formatted_answer :: "question \<Rightarrow> answer \<Rightarrow> string" where
  "formatted_answer q a =
     (if qtype q = Rating then to_text a @ '' out of '' @ string_of_int (scale q)
      else to_text a)"

definition answered_pair :: "(int \<rightharpoonup> answer) \<Rightarrow> question \<Rightarrow> (string \<times> string) option" where
  "answered_pair ans q =
     (case ans (qid q) of
        None \<Rightarrow> None
      | Some a \<Rightarrow> if a = Str [] then None else Some (title q, formatted_answer q a))"

definition aggregate_results :: "question list \<Rightarrow> (int \<rightharpoonup> answer) \<Rightarrow> summary_view" where
  "aggregate_results qs ans =
     (case List.map_filter (answered_pair ans) qs of
        [] \<Rightarrow> NoResponsesRecorded
      | p # ps \<Rightarrow> Items (p # ps))"


section \<open>The categories service (server.js)\<close>

subsection \<open>Strings\<close>

text \<open>
  \<open>toLowerCase\<close> and \<open>trim\<close> on code units below 256: the capital letters are A to Z
  and U+00C0 to U+00DE without the multiplication sign; white space is tab, line feed,
  vertical tab, form feed, carriage return, space and the no-break space.
\<close>

definition lower_char :: "char \<Rightarrow> char" where
  "lower_char c =
     (let n = (of_char c :: nat)
      in if (65 \<le> n \<and> n \<le> 90) \<or> (192 \<le> n \<and> n \<le> 222 \<and> n \<noteq> 215)
         then char_of (n + 32) else c)"

definition toLowerCase :: "string \<Rightarrow> string" where
  "toLowerCase s = map lower_char s"

definition js_whitespace :: "char \<Rightarrow> bool" where
  "js_whitespace c =
     (let n = (of_char c :: nat) in (9 \<le> n \<and> n \<le> 13) \<or> n = 32 \<or> n = 160)"

definition trim :: "string \<Rightarrow> string" where
  "trim s = rev (dropWhile js_whitespace (rev (dropWhile js_whitespace s)))"


subsection \<open>Data\<close>

text \<open>
  A field of a request body: a JSON value, or absent (\<open>undefined\<close>, here \<open>None\<close>).
  \<open>JOther\<close> stands for arrays and objects, which are truthy and not strings.
\<close>

datatype json = JNull | JBool bool | JNum int | JStr string | JOther

fun truthy :: "json option \<Rightarrow> bool" where
  "truthy None = False"
| "truthy (Some JNull) = False"
| "truthy (Some (JBool b)) = b"
| "truthy (Some (JNum n)) = (n \<noteq> 0)"
| "truthy (Some (JStr s)) = (s \<noteq> [])"
| "truthy (Some JOther) = True"

text \<open>\<open>v || d\<close>\<close>

fun or_default :: "json option \<Rightarrow> json \<Rightarrow> json" where
  "or_default None d = d"
| "or_default (Some v) d = (if truthy (Some v) then v else d)"

text \<open>
  A stored category. Its name is a string, as it is for every category the service
  creates; the identifier is called \<open>id\<close> in the source.
\<close>

record category =
  cat_id :: int
  name :: string
  description :: json
  color :: json
  createdAt :: string
  updatedAt :: string

text \<open>The module's two variables, \<open>categories\<close> and \<open>nextCategoryId\<close>.\<close>

record store =
  categories :: "category list"
  nextCategoryId :: int

record body =
  body_name :: "json option"
  body_description :: "json option"
  body_color :: "json option"

datatype response =
    Listing "category list" nat
  | Success nat category string
  | Found200 category
  | Failure nat string

fun status :: "response \<Rightarrow> nat" where
  "status (Listing cs n) = 200"
| "status (Success code c msg) = code"
| "status (Found200 c) = 200"
| "status (Failure code msg) = code"


subsection \<open>Routes\<close>

text \<open>
  The identifier of a route is \<open>parseInt(req.params.id)\<close>: an integer, or \<open>NaN\<close> (here
  \<open>None\<close>), which \<open>===\<close> equates with nothing. Time stamps are read from the clock by the
  handler and are parameters here. Writing the data file changes neither variable and
  its failure is swallowed, so it is not part of the model.
\<close>

definition same_id :: "int option \<Rightarrow> category \<Rightarrow> bool" where
  "same_id i c = (i = Some (cat_id c))"

definition get_categories :: "store \<Rightarrow> response" where
  "get_categories st = Listing (categories st) (length (categories st))"

definition get_category :: "int option \<Rightarrow> store \<Rightarrow> response" where
  "get_category i st =
     (case find (same_id i) (categories st) of
        None \<Rightarrow> Failure 404 ''Category not found''
      | Some c \<Rightarrow> Found200 c)"

definition post_category :: "body \<Rightarrow> string \<Rightarrow> string \<Rightarrow> store \<Rightarrow> response \<times> store" where
  "post_category b created updated st =
     (case body_name b of
        Some (JStr n) \<Rightarrow>
          if n = [] \<or> length (trim n) = 0 then (Failure 400 ''Category name is required'', st)
          else
            (case find (\<lambda>c. toLowerCase (name c) = toLowerCase n) (categories st) of
               Some existingCategory \<Rightarrow>
                 (Failure 400 ''Category with this name already exists'', st)
             | None \<Rightarrow>
                 (let newCategory =
                        \<lparr>cat_id = nextCategoryId st,
                         name = trim n,
                         description = or_default (body_description b) (JStr []),
                         color = or_default (body_color b) (JStr ''#667eea''),
                         createdAt = created,
                         updatedAt = updated\<rparr>
                  in (Success 201 newCategory ''Category created successfully'',
                      st\<lparr>categories := categories st @ [newCategory],
                         nextCategoryId := nextCategoryId st + 1\<rparr>)))
      | _ \<Rightarrow> (Failure 400 ''Category name is required'', st))"

text \<open>The assignments of the update, each made when its field is not \<open>undefined\<close>.\<close>

definition update_fields :: "body \<Rightarrow> string \<Rightarrow> category \<Rightarrow> category" where
  "update_fields b updated c =
     (let c1 = (case body_name b of Some (JStr n) \<Rightarrow> c\<lparr>name := trim n\<rparr> | _ \<Rightarrow> c);
          c2 = (case body_description b of Some d \<Rightarrow> c1\<lparr>description := d\<rparr> | None \<Rightarrow> c1);
          c3 = (case body_color b of Some k \<Rightarrow> c2\<lparr>color := k\<rparr> | None \<Rightarrow> c2)
      in c3\<lparr>updatedAt := updated\<rparr>)"

definition put_update :: "nat \<Rightarrow> body \<Rightarrow> string \<Rightarrow> store \<Rightarrow> response \<times> store" where
  "put_update categoryIndex b updated st =
     (let c = update_fields b updated (categories st ! categoryIndex)
      in (Success 200 c ''Category updated successfully'',
          st\<lparr>categories := (categories st)[categoryIndex := c]\<rparr>))"

definition put_category :: "int option \<Rightarrow> body \<Rightarrow> string \<Rightarrow> store \<Rightarrow> response \<times> store" where
  "put_category i b updated st =
     (case first_index (same_id i) (categories st) of
        None \<Rightarrow> (Failure 404 ''Category not found'', st)
      | Some categoryIndex \<Rightarrow>
          (case body_name b of
             None \<Rightarrow> put_update categoryIndex b updated st
           | Some (JStr n) \<Rightarrow>
               if length (trim n) = 0
               then (Failure 400 ''Category name must be a non-empty string'', st)
               else
                 (case find (\<lambda>c. \<not> same_id i c \<and> toLowerCase (name c) = toLowerCase n)
                         (categories st) of
                    Some existingCategory \<Rightarrow>
                      (Failure 400 ''Category with this name already exists'', st)
                  | None \<Rightarrow> put_update categoryIndex b updated st)
           | Some other \<Rightarrow>
               (Failure 400 ''Category name must be a non-empty string'', st)))"

definition delete_category :: "int option \<Rightarrow> store \<Rightarrow> response \<times> store" where
  "delete_category i st =
     (case first_index (same_id i) (categories st) of
        None \<Rightarrow> (Failure 404 ''Category not found'', st)
      | Some categoryIndex \<Rightarrow>
          (Success 200 (categories st ! categoryIndex) ''Category deleted successfully'',
           st\<lparr>categories :=
                take categoryIndex (categories st) @ drop (Suc categoryIndex) (categories st)\<rparr>))"

text \<open>The requests that change the collection, and the stores they lead to from the empty one.\<close>

datatype request =
    Post body string string
  | Put "int option" body string
  | Delete "int option"

fun handle :: "request \<Rightarrow> store \<Rightarrow> response \<times> store" where
  "handle (Post b created updated) st = post_category b created updated st"
| "handle (Put i b updated) st = put_category i b updated st"
| "handle (Delete i) st = delete_category i st"

fun run :: "request list \<Rightarrow> store \<Rightarrow> store" where
  "run [] st = st"
| "run (r # rs) st = run rs (snd (handle r st))"

definition empty_store :: store where
  "empty_store = \<lparr>categories = [], nextCategoryId = 1\<rparr>"


section \<open>Definitions used by the proofs\<close>

text \<open>The flags \<open>updateNavigationButtons\<close> writes when there is a current question.\<close>

definition nav_flags :: "question \<Rightarrow> app \<Rightarrow> app" where
  "nav_flags q s =
     s\<lparr>prev_disabled := (currentQuestionIndex s = 0),
       next_disabled := (required q \<and> \<not> hasAnswer (answers s (qid q))),
       next_text := (if currentQuestionIndex s = int (length (questions (surveyData s))) - 1
                     then ''Complete Survey'' else ''Next'')\<rparr>"

text \<open>
  While the survey screen is shown, the next button is disabled exactly when the current
  question is required and unanswered.
\<close>

definition gate_consistent :: "app \<Rightarrow> bool" where
  "gate_consistent s =
     (case at (questions (surveyData s)) (currentQuestionIndex s) of
        None \<Rightarrow> True
      | Some q \<Rightarrow>
          (if active s = SurveyScreen
           then next_disabled s = (required q \<and> \<not> hasAnswer (answers s (qid q)))
           else True))"

text \<open>
  While the survey screen is shown, the options container holds the inputs of the current
  question: its handlers write the question's options, or the numbers from 1 to its scale,
  or the textarea's content, under the question's id.
\<close>

fun shows_question :: "question \<Rightarrow> widget \<Rightarrow> bool" where
  "shows_question q NoInputs = (qtype q = OtherType)"
| "shows_question q (Options q' els) =
     (q' = q \<and>
      ((qtype q = MultipleChoice \<and> map writes els = map Str (options q))
       \<or> (qtype q = Rating \<and> map writes els = map Num [1 .. scale q])))"
| "shows_question q (TextArea q' v) = (q' = q \<and> qtype q = TextQuestion)"

definition rendered_current :: "app \<Rightarrow> bool" where
  "rendered_current s =
     (case at (questions (surveyData s)) (currentQuestionIndex s) of
        None \<Rightarrow> True
      | Some q \<Rightarrow> (if active s = SurveyScreen then shows_question q (container s) else True))"

subsection \<open>An example survey\<close>

text \<open>
  Three questions: a required multiple choice, an optional rating on a scale of five and
  an optional text; a document that finds nothing for the selectors left to it.
\<close>

definition example_q1 :: question where
  "example_q1 = \<lparr>qid = 1, qtype = MultipleChoice, title = ''Q1'', required = True,
                  options = [''A'', ''B''], scale = 0\<rparr>"

definition example_q2 :: question where
  "example_q2 = \<lparr>qid = 2, qtype = Rating, title = ''Q2'', required = False,
                  options = [], scale = 5\<rparr>"

definition example_q3 :: question where
  "example_q3 = \<lparr>qid = 3, qtype = TextQuestion, title = ''Q3'', required = False,
                  options = [], scale = 0\<rparr>"

definition example_survey :: survey_data where
  "example_survey = \<lparr>questions = [example_q1, example_q2, example_q3]\<rparr>"

definition no_match :: document where
  "no_match sel vals = NotFound"

definition example_initial :: app where
  "example_initial = initial_app example_survey False False ''Next'' (Items [])"

definition example_started :: app where
  "example_started = state_of (fire no_match ClickStart example_initial)"


definition example_answered :: app where
  "example_answered =
     state_of (fire no_match (ClickOption 3) (state_of (fire no_match ClickNext
       (state_of (fire no_match (ClickOption 1) example_started)))))"

subsection \<open>Well-formed answers\<close>

text \<open>
  What an answer of a question may be: one of the options for a multiple choice, an
  integer from 1 to the scale for a rating, any string for a text; a question of another
  type has no input and no answer.
\<close>

fun valid_answer :: "question \<Rightarrow> answer \<Rightarrow> bool" where
  "valid_answer q (Str t) =
     (qtype q = TextQuestion \<or> (qtype q = MultipleChoice \<and> t \<in> set (options q)))"
| "valid_answer q (Num i) = (qtype q = Rating \<and> 1 \<le> i \<and> i \<le> scale q)"

fun widget_ok :: "question list \<Rightarrow> widget \<Rightarrow> bool" where
  "widget_ok qs NoInputs = True"
| "widget_ok qs (Options q els) =
     (q \<in> set qs \<and> list_all (\<lambda>e. valid_answer q (writes e)) els)"
| "widget_ok qs (TextArea q v) = (q \<in> set qs \<and> qtype q = TextQuestion)"

definition answers_ok :: "question list \<Rightarrow> (int \<rightharpoonup> answer) \<Rightarrow> bool" where
  "answers_ok qs ans =
     (\<forall>k v. ans k = Some v \<longrightarrow> (\<exists>q \<in> set qs. qid q = k \<and> valid_answer q v))"

definition session_ok :: "app \<Rightarrow> bool" where
  "session_ok s =
     (widget_ok (questions (surveyData s)) (container s)
      \<and> answers_ok (questions (surveyData s)) (answers s))"


subsection \<open>Example requests\<close>

text \<open>
  Two creations whose names differ by a leading space only, and the store they lead to
  from the empty one; a renaming of the first category to the name it has.
\<close>

definition post_ops :: request where
  "post_ops =
     Post \<lparr>body_name = Some (JStr ''Ops''), body_description = None, body_color = None\<rparr>
       ''t1'' ''t1''"

definition post_padded_ops :: request where
  "post_padded_ops =
     Post \<lparr>body_name = Some (JStr '' Ops''), body_description = None, body_color = None\<rparr>
       ''t2'' ''t2''"

definition ops_store :: store where
  "ops_store = run [post_ops] empty_store"

definition rename_ops :: body where
  "rename_ops = \<lparr>body_name = Some (JStr ''Ops''), body_description = None, body_color = None\<rparr>"


subsection \<open>Stored names\<close>

text \<open>No stored category has a blank name.\<close>

definition names_nonblank :: "store \<Rightarrow> bool" where
  "names_nonblank st = list_all (\<lambda>c. trim (name c) \<noteq> []) (categories st)"

subsection \<open>An option with quotation marks\<close>

text \<open>
  A survey whose first question offers the option \<open>Say "hi"\<close>, and the state after
  starting, choosing that option and going to the second question.
\<close>

definition quoted_option :: string where
  "quoted_option = ''Say '' @ [dquote] @ ''hi'' @ [dquote]"

definition quoted_q :: question where
  "quoted_q = \<lparr>qid = 1, qtype = MultipleChoice, title = ''Greeting'', required = False,
                options = [quoted_option, ''No''], scale = 0\<rparr>"

definition quoted_survey :: survey_data where
  "quoted_survey = \<lparr>questions = [quoted_q, example_q3]\<rparr>"

definition quoted_initial :: app where
  "quoted_initial = initial_app quoted_survey False False ''Next'' (Items [])"

definition quoted_answered :: "document \<Rightarrow> app" where
  "quoted_answered D =
     state_of (fire D ClickNext (state_of (fire D (ClickOption 0)
       (state_of (fire D ClickStart quoted_initial)))))"


subsection \<open>Reading a decimal text\<close>

definition digits_value :: "string \<Rightarrow> nat" where
  "digits_value s = foldl (\<lambda>a c. 10 * a + (of_char c - 48)) 0 s"


section \<open>Properties of the survey runner\<close>

subsection \<open>Frame lemmas\<close>

lemma updateNav_frame [simp]:
  "surveyData (state_of (updateNavigationButtons s)) = surveyData s"
  "currentQuestionIndex (state_of (updateNavigationButtons s)) = currentQuestionIndex s"
  "answers (state_of (updateNavigationButtons s)) = answers s"
  "active (state_of (updateNavigationButtons s)) = active s"
  "container (state_of (updateNavigationButtons s)) = container s"
  "summary (state_of (updateNavigationButtons s)) = summary s"
  by (simp_all add: updateNavigationButtons_def Let_def split: option.splits)

lemma restore_selected_frame [simp]:
  "surveyData (state_of (restore_selected D a s)) = surveyData s"
  "currentQuestionIndex (state_of (restore_selected D a s)) = currentQuestionIndex s"
  "answers (state_of (restore_selected D a s)) = answers s"
  "active (state_of (restore_selected D a s)) = active s"
  "next_disabled (state_of (restore_selected D a s)) = next_disabled s"
  "prev_disabled (state_of (restore_selected D a s)) = prev_disabled s"
  "summary (state_of (restore_selected D a s)) = summary s"
  by (simp_all add: restore_selected_def split: query_result.splits)

lemma restore_frame [simp]:
  "surveyData (state_of (restorePreviousAnswer D q s)) = surveyData s"
  "currentQuestionIndex (state_of (restorePreviousAnswer D q s)) = currentQuestionIndex s"
  "answers (state_of (restorePreviousAnswer D q s)) = answers s"
  "active (state_of (restorePreviousAnswer D q s)) = active s"
  "next_disabled (state_of (restorePreviousAnswer D q s)) = next_disabled s"
  "prev_disabled (state_of (restorePreviousAnswer D q s)) = prev_disabled s"
  "summary (state_of (restorePreviousAnswer D q s)) = summary s"
  by (simp_all add: restorePreviousAnswer_def split: option.splits question_type.splits)

lemma updateNav_Some:
  "at (questions (surveyData s)) (currentQuestionIndex s) = Some q \<Longrightarrow>
   updateNavigationButtons s = Done (nav_flags q s)"
  by (simp add: updateNavigationButtons_def nav_flags_def Let_def)

lemma updateNav_None:
  "at (questions (surveyData s)) (currentQuestionIndex s) = None \<Longrightarrow>
   updateNavigationButtons s = Raised TypeError (s\<lparr>prev_disabled := (currentQuestionIndex s = 0)\<rparr>)"
  by (simp add: updateNavigationButtons_def Let_def)

lemma displayQuestion_None:
  "at (questions (surveyData s)) (currentQuestionIndex s) = None \<Longrightarrow>
   displayQuestion D s = Raised TypeError s"
  by (simp add: displayQuestion_def)

lemma displayQuestion_Some:
  "at (questions (surveyData s)) (currentQuestionIndex s) = Some q \<Longrightarrow>
   displayQuestion D s =
     restorePreviousAnswer D q (nav_flags q (s\<lparr>container := createInputs q\<rparr>))"
  by (simp add: displayQuestion_def updateNav_Some)

lemma nav_flags_frame [simp]:
  "surveyData (nav_flags q s) = surveyData s"
  "currentQuestionIndex (nav_flags q s) = currentQuestionIndex s"
  "answers (nav_flags q s) = answers s"
  "active (nav_flags q s) = active s"
  "container (nav_flags q s) = container s"
  "summary (nav_flags q s) = summary s"
  "next_disabled (nav_flags q s) = (required q \<and> \<not> hasAnswer (answers s (qid q)))"
  "prev_disabled (nav_flags q s) = (currentQuestionIndex s = 0)"
  by (simp_all add: nav_flags_def)

lemma displayQuestion_frame [simp]:
  "surveyData (state_of (displayQuestion D s)) = surveyData s"
  "currentQuestionIndex (state_of (displayQuestion D s)) = currentQuestionIndex s"
  "answers (state_of (displayQuestion D s)) = answers s"
  "active (state_of (displayQuestion D s)) = active s"
  "summary (state_of (displayQuestion D s)) = summary s"
  by (cases "at (questions (surveyData s)) (currentQuestionIndex s)";
      simp add: displayQuestion_None displayQuestion_Some)+

lemma fire_surveyData [simp]: "surveyData (state_of (fire D e s)) = surveyData s"
  by (cases e)
     (simp_all add: startSurvey_def previousQuestion_def nextQuestion_def completeSurvey_def
        restartSurvey_def clickOption_def inputText_def showSurveyScreen_def
        showResultsScreen_def showWelcomeScreen_def split: widget.splits)

lemma reachable_surveyData: "reachable D sv s \<Longrightarrow> surveyData s = sv"
  by (induction rule: reachable.induct) (simp_all add: initial_app_def)

lemma fire_keeps_index_bounds:
  assumes "0 \<le> currentQuestionIndex s"
    and "currentQuestionIndex s < int (length (questions (surveyData s)))"
  shows "0 \<le> currentQuestionIndex (state_of (fire D e s))
       \<and> currentQuestionIndex (state_of (fire D e s)) < int (length (questions (surveyData s)))"
  using assms
  by (cases e)
     (auto simp add: startSurvey_def previousQuestion_def nextQuestion_def completeSurvey_def
        restartSurvey_def clickOption_def inputText_def showSurveyScreen_def
        showResultsScreen_def showWelcomeScreen_def split: widget.splits)


subsection \<open>The example survey, evaluated\<close>

lemmas survey_defs =
  startSurvey_def previousQuestion_def nextQuestion_def completeSurvey_def restartSurvey_def
  clickOption_def inputText_def showSurveyScreen_def showResultsScreen_def
  showWelcomeScreen_def displayQuestion_def updateNavigationButtons_def
  restorePreviousAnswer_def restore_selected_def createMultipleChoiceOptions_def
  createRatingOptions_def createTextInput_def createInputs_def at_def select_only_def add_selected_def
  initial_app_def

lemmas example_defs =
  example_q1_def example_q2_def example_q3_def example_survey_def example_initial_def
  no_match_def

lemma example_started_eq:
  "example_started =
     \<lparr>surveyData = example_survey, currentQuestionIndex = 0, answers = Map.empty,
      active = SurveyScreen, prev_disabled = True, next_disabled = True, next_text = ''Next'',
      container = Options example_q1
        [\<lparr>data_value = ''A'', selected = False, writes = Str ''A''\<rparr>,
         \<lparr>data_value = ''B'', selected = False, writes = Str ''B''\<rparr>],
      summary = Items []\<rparr>"
  by (simp add: example_started_def survey_defs example_defs Let_def)

lemma example_started_reachable: "reachable no_match example_survey example_started"
  unfolding example_started_def example_initial_def
  by (rule reachable_step) (rule reachable_init)


subsection \<open>The index stays in range\<close>

text \<open>
  Claim C2. For a survey with at least one question, every state reachable by starting,
  going forward and back, answering and restarting has its current index inside the
  question list: \<open>0 \<le> currentQuestionIndex < length questions\<close>. This holds on every
  screen, so in particular while the survey screen is shown.
\<close>

theorem index_in_range:
  assumes "reachable D sv s" and "questions sv \<noteq> []"
  shows "0 \<le> currentQuestionIndex s \<and> currentQuestionIndex s < int (length (questions sv))"
  using assms
proof (induction rule: reachable.induct)
  case (reachable_init pd nd lbl sm)
  then show ?case by (simp add: initial_app_def)
next
  case (reachable_step s e)
  then show ?case
    using fire_keeps_index_bounds [of s D e] reachable_surveyData [of D sv s] by simp
qed

theorem index_in_range_witness:
  "reachable no_match example_survey example_started
   \<and> questions example_survey \<noteq> []
   \<and> 0 \<le> currentQuestionIndex example_started
   \<and> currentQuestionIndex example_started < int (length (questions example_survey))"
proof -
  have ne: "questions example_survey \<noteq> []" by (simp add: example_survey_def)
  show ?thesis
    using index_in_range [OF example_started_reachable ne] example_started_reachable ne
    by simp
qed

subsection \<open>The navigation gate\<close>

lemma gate_updateNav: "gate_consistent (state_of (updateNavigationButtons s))"
  by (cases "at (questions (surveyData s)) (currentQuestionIndex s)")
     (simp_all add: gate_consistent_def updateNav_Some updateNav_None)

lemma gate_displayQuestion: "gate_consistent (state_of (displayQuestion D s))"
  by (cases "at (questions (surveyData s)) (currentQuestionIndex s)")
     (simp_all add: gate_consistent_def displayQuestion_None displayQuestion_Some)

lemma gate_off_screen: "active s \<noteq> SurveyScreen \<Longrightarrow> gate_consistent s"
  by (simp add: gate_consistent_def split: option.splits)

lemma gate_fire: "gate_consistent s \<Longrightarrow> gate_consistent (state_of (fire D e s))"
proof (cases e)
  case ClickStart
  then show ?thesis by (simp add: startSurvey_def gate_displayQuestion)
next
  case ClickPrev
  assume "gate_consistent s"
  with ClickPrev show ?thesis by (simp add: previousQuestion_def gate_displayQuestion)
next
  case ClickNext
  assume "gate_consistent s"
  with ClickNext show ?thesis
    by (simp add: nextQuestion_def gate_displayQuestion completeSurvey_def
          showResultsScreen_def gate_off_screen)
next
  case ClickRestart
  then show ?thesis by (simp add: restartSurvey_def showWelcomeScreen_def gate_off_screen)
next
  case (ClickOption k)
  assume "gate_consistent s"
  with ClickOption show ?thesis
    by (simp add: clickOption_def gate_updateNav split: widget.splits)
next
  case (InputText t)
  assume "gate_consistent s"
  with InputText show ?thesis
    by (simp add: inputText_def gate_updateNav split: widget.splits)
qed

lemma reachable_gate: "reachable D sv s \<Longrightarrow> gate_consistent s"
  by (induction rule: reachable.induct)
     (simp_all add: gate_fire gate_off_screen initial_app_def)

lemma input_event_frame:
  "input_event e \<Longrightarrow> active (state_of (fire D e s)) = active s
     \<and> currentQuestionIndex (state_of (fire D e s)) = currentQuestionIndex s"
  by (cases e) (simp_all add: clickOption_def inputText_def split: widget.splits)

lemma nextQuestion_advances:
  "(let s' = state_of (nextQuestion D s) in
      if currentQuestionIndex s < int (length (questions (surveyData s))) - 1
      then active s' = active s \<and> currentQuestionIndex s' = currentQuestionIndex s + 1
      else active s' = ResultsScreen \<and> currentQuestionIndex s' = currentQuestionIndex s)"
  by (simp add: nextQuestion_def completeSurvey_def showResultsScreen_def Let_def)

text \<open>
  Claim C1. On the survey screen with a required current question: while the question has
  no answer (absent or the empty string) a click on the next button changes nothing; and
  after an input that leaves a non-empty answer for the question, the next click advances,
  to the following index, or to the results screen from the last index.
\<close>

theorem required_question_gates_next:
  assumes reach: "reachable D sv s"
    and scr: "active s = SurveyScreen"
    and cur: "at (questions sv) (currentQuestionIndex s) = Some q"
    and req: "required q"
  shows "(\<not> hasAnswer (answers s (qid q)) \<longrightarrow> fire D ClickNext s = Done s)
       \<and> (\<forall>e. input_event e \<and> hasAnswer (answers (state_of (fire D e s)) (qid q)) \<longrightarrow>
            (let s' = state_of (fire D ClickNext (state_of (fire D e s)))
             in if currentQuestionIndex s < int (length (questions sv)) - 1
                then active s' = SurveyScreen
                   \<and> currentQuestionIndex s' = currentQuestionIndex s + 1
                else active s' = ResultsScreen
                   \<and> currentQuestionIndex s' = currentQuestionIndex s))"
proof (intro conjI allI impI)
  assume un: "\<not> hasAnswer (answers s (qid q))"
  have sd: "surveyData s = sv" using reach by (rule reachable_surveyData)
  have "gate_consistent s" using reach by (rule reachable_gate)
  with scr cur sd req un have "next_disabled s" by (simp add: gate_consistent_def)
  then show "fire D ClickNext s = Done s" by simp
next
  fix e
  assume e: "input_event e \<and> hasAnswer (answers (state_of (fire D e s)) (qid q))"
  define s1 where "s1 = state_of (fire D e s)"
  have sd: "surveyData s = sv" using reach by (rule reachable_surveyData)
  have reach1: "reachable D sv s1" unfolding s1_def using reach by (rule reachable_step)
  have sd1: "surveyData s1 = sv" using reach1 by (rule reachable_surveyData)
  have fr: "active s1 = SurveyScreen" "currentQuestionIndex s1 = currentQuestionIndex s"
    using e input_event_frame [of e D s] scr by (simp_all add: s1_def)
  have "gate_consistent s1" using reach1 by (rule reachable_gate)
  with fr cur sd1 e have nd: "\<not> next_disabled s1" by (simp add: gate_consistent_def s1_def)
  have "fire D ClickNext s1 = nextQuestion D s1" using nd by simp
  then show "let s' = state_of (fire D ClickNext (state_of (fire D e s)))
             in if currentQuestionIndex s < int (length (questions sv)) - 1
                then active s' = SurveyScreen
                   \<and> currentQuestionIndex s' = currentQuestionIndex s + 1
                else active s' = ResultsScreen
                   \<and> currentQuestionIndex s' = currentQuestionIndex s"
    using nextQuestion_advances [of D s1] fr sd1 by (simp add: s1_def Let_def)
qed

theorem required_question_gates_next_witness:
  "reachable no_match example_survey example_started
   \<and> active example_started = SurveyScreen
   \<and> at (questions example_survey) (currentQuestionIndex example_started) = Some example_q1
   \<and> required example_q1
   \<and> \<not> hasAnswer (answers example_started (qid example_q1))
   \<and> fire no_match ClickNext example_started = Done example_started
   \<and> input_event (ClickOption 1)
   \<and> hasAnswer (answers (state_of (fire no_match (ClickOption 1) example_started)) (qid example_q1))
   \<and> active (state_of (fire no_match ClickNext
         (state_of (fire no_match (ClickOption 1) example_started)))) = SurveyScreen
   \<and> currentQuestionIndex (state_of (fire no_match ClickNext
         (state_of (fire no_match (ClickOption 1) example_started)))) = 1"
proof -
  have scr: "active example_started = SurveyScreen"
    by (simp add: example_started_eq)
  have cur: "at (questions example_survey) (currentQuestionIndex example_started)
               = Some example_q1"
    by (simp add: example_started_eq example_survey_def at_def)
  have req: "required example_q1" by (simp add: example_q1_def)
  have un: "\<not> hasAnswer (answers example_started (qid example_q1))"
    by (simp add: example_started_eq)
  have ans: "hasAnswer (answers (state_of (fire no_match (ClickOption 1) example_started))
               (qid example_q1))"
    by (simp add: example_started_eq survey_defs example_defs Let_def)
  have idx: "currentQuestionIndex example_started = 0"
    by (simp add: example_started_eq)
  have len: "int (length (questions example_survey)) = 3"
    by (simp add: example_survey_def)
  note gate = required_question_gates_next [OF example_started_reachable scr cur req]
  from gate un have a: "fire no_match ClickNext example_started = Done example_started"
    by blast
  have b:
    "active (state_of (fire no_match ClickNext
         (state_of (fire no_match (ClickOption 1) example_started)))) = SurveyScreen
     \<and> currentQuestionIndex (state_of (fire no_match ClickNext
         (state_of (fire no_match (ClickOption 1) example_started)))) = 1"
    using gate [THEN conjunct2, THEN spec, of "ClickOption 1"] ans idx len
    by (simp add: Let_def del: fire.simps)
  show ?thesis using example_started_reachable scr cur req un a ans b
    by (simp del: fire.simps)
qed

subsection \<open>Going back from the first question\<close>

text \<open>
  Claim C8. At index 0 a click on the previous button, and \<open>previousQuestion\<close> itself,
  return the state as it was (screen, index, answers and all else) and throw nothing.
\<close>

theorem previous_at_first_question:
  "currentQuestionIndex s = 0 \<Longrightarrow> fire D ClickPrev s = Done s \<and> previousQuestion D s = Done s"
  by (simp add: previousQuestion_def)

theorem previous_at_first_question_witness:
  "currentQuestionIndex example_started = 0
   \<and> fire no_match ClickPrev example_started = Done example_started
   \<and> previousQuestion no_match example_started = Done example_started"
proof -
  have z: "currentQuestionIndex example_started = 0" by (simp add: example_started_eq)
  show ?thesis using previous_at_first_question [OF z] z by (simp del: fire.simps)
qed

subsection \<open>Restarting\<close>

text \<open>
  Claim C9. Restarting sets the index to 0, empties the answers and shows the welcome
  screen; the loaded survey definition is the one before the call. This holds in every
  state, so in particular on the results screen.
\<close>

theorem restart_resets_session:
  "fire D ClickRestart s = restartSurvey s
   \<and> (\<exists>s'. restartSurvey s = Done s'
         \<and> currentQuestionIndex s' = 0
         \<and> answers s' = Map.empty
         \<and> active s' = WelcomeScreen
         \<and> surveyData s' = surveyData s)"
  by (simp add: restartSurvey_def showWelcomeScreen_def)

subsection \<open>The results summary\<close>

lemma summary_item_step:
  "summary_item ans acc q =
     acc @ (case answered_pair ans q of None \<Rightarrow> [] | Some p \<Rightarrow> [p])"
  by (simp add: summary_item_def answered_pair_def formatted_answer_def split: option.splits)

lemma foldl_summary_item:
  "foldl (summary_item ans) acc qs = acc @ List.map_filter (answered_pair ans) qs"
proof (induction qs arbitrary: acc)
  case Nil
  then show ?case by (simp add: List.map_filter_simps)
next
  case (Cons q qs)
  have "foldl (summary_item ans) acc (q # qs)
          = foldl (summary_item ans) (summary_item ans acc q) qs"
    by simp
  also have "\<dots> = summary_item ans acc q @ List.map_filter (answered_pair ans) qs"
    by (rule Cons.IH)
  also have "\<dots> = acc @ List.map_filter (answered_pair ans) (q # qs)"
    by (simp add: summary_item_step List.map_filter_simps split: option.splits)
  finally show ?case .
qed

text \<open>
  Claim C4. The summary built by \<open>displayResults\<close> is the aggregation of the
  specification: the pairs of title and formatted answer in question order, without the
  questions whose answer is absent or the empty string, a rating answer formatted as
  "value out of scale" and any other answer as its recorded text, and the explicit
  "no responses" result instead of an empty list.
\<close>

theorem displayResults_aggregates:
  "displayResults qs ans = aggregate_results qs ans"
  by (simp add: displayResults_def aggregate_results_def foldl_summary_item Let_def
        split: list.splits)

text \<open>The scenarios of the specification, evaluated.\<close>

lemma scenario_one_answer:
  "displayResults (questions example_survey) [1 \<mapsto> Str ''B''] = Items [(''Q1'', ''B'')]"
  by (simp add: displayResults_def summary_item_def example_defs)

lemma digits_1_to_5:
  "string_of_int 1 = ''1''" "string_of_int 2 = ''2''" "string_of_int 3 = ''3''"
  "string_of_int 4 = ''4''" "string_of_int 5 = ''5''"
  by (simp_all add: string_of_int_def string_of_nat.simps digit_char_def)

lemma scenario_rating:
  "displayResults (questions example_survey) [1 \<mapsto> Str ''B'', 2 \<mapsto> Num 4]
     = Items [(''Q1'', ''B''), (''Q2'', ''4 out of 5'')]"
  by (simp add: displayResults_def summary_item_def example_defs digits_1_to_5)

lemma scenario_nothing:
  "displayResults (questions example_survey) [3 \<mapsto> Str []] = NoResponsesRecorded"
  by (simp add: displayResults_def summary_item_def example_defs)

subsection \<open>Recorded answers are well-formed\<close>

lemma at_in_set: "at xs i = Some x \<Longrightarrow> x \<in> set xs"
  by (auto simp add: at_def split: if_splits)

lemma widget_ok_createInputs: "q \<in> set qs \<Longrightarrow> widget_ok qs (createInputs q)"
  by (cases "qtype q")
     (auto simp add: createInputs_def createMultipleChoiceOptions_def createRatingOptions_def
        createTextInput_def list_all_iff)

lemma writes_add_selected: "map writes (add_selected k els) = map writes els"
  by (simp add: add_selected_def map_update list_update_same_conv)

lemma list_all_writes:
  "map writes els' = map writes els \<Longrightarrow>
   list_all (\<lambda>e. valid_answer q (writes e)) els' = list_all (\<lambda>e. valid_answer q (writes e)) els"
proof -
  assume "map writes els' = map writes els"
  then have "list_all (valid_answer q) (map writes els') = list_all (valid_answer q) (map writes els)"
    by simp
  then show ?thesis by (simp add: list_all_iff)
qed

lemma widget_ok_mark_found: "widget_ok qs w \<Longrightarrow> widget_ok qs (mark_found k w)"
  by (cases w) (simp_all add: list_all_writes [OF writes_add_selected])

lemma widget_ok_set_text: "widget_ok qs w \<Longrightarrow> widget_ok qs (set_text t w)"
  by (cases w) simp_all

lemma widget_ok_select_only:
  "list_all (\<lambda>e. valid_answer q (writes e)) els \<Longrightarrow>
   list_all (\<lambda>e. valid_answer q (writes e)) (select_only k els)"
proof -
  have "map writes (select_only k els) = map writes els"
    by (simp add: select_only_def writes_add_selected)
  then have "list_all (\<lambda>e. valid_answer q (writes e)) (select_only k els)
      = list_all (\<lambda>e. valid_answer q (writes e)) els"
    by (rule list_all_writes)
  then show "list_all (\<lambda>e. valid_answer q (writes e)) els \<Longrightarrow>
   list_all (\<lambda>e. valid_answer q (writes e)) (select_only k els)"
    by simp
qed

lemma session_ok_nav_flags [simp]: "session_ok (nav_flags q s) = session_ok s"
  by (simp add: session_ok_def)

lemma session_ok_updateNav: "session_ok s \<Longrightarrow> session_ok (state_of (updateNavigationButtons s))"
  by (simp add: session_ok_def)

lemma session_ok_restore_selected:
  "session_ok s \<Longrightarrow> session_ok (state_of (restore_selected D a s))"
  by (simp add: session_ok_def restore_selected_def widget_ok_mark_found
        split: query_result.splits)

lemma session_ok_restore:
  "session_ok s \<Longrightarrow> session_ok (state_of (restorePreviousAnswer D q s))"
  by (auto simp add: restorePreviousAnswer_def session_ok_restore_selected
        split: option.splits question_type.splits)
     (simp_all add: session_ok_def widget_ok_set_text)

lemma session_ok_displayQuestion:
  assumes "session_ok s"
  shows "session_ok (state_of (displayQuestion D s))"
proof (cases "at (questions (surveyData s)) (currentQuestionIndex s)")
  case None
  then show ?thesis using assms by (simp add: displayQuestion_None)
next
  case (Some q)
  have "session_ok (nav_flags q (s\<lparr>container := createInputs q\<rparr>))"
    using assms at_in_set [OF Some] by (simp add: session_ok_def widget_ok_createInputs)
  then show ?thesis using Some by (simp add: displayQuestion_Some session_ok_restore)
qed

lemma answers_ok_empty: "answers_ok qs Map.empty"
  by (simp add: answers_ok_def)

lemma answers_ok_update:
  "answers_ok qs ans \<Longrightarrow> q \<in> set qs \<Longrightarrow> valid_answer q v \<Longrightarrow>
   answers_ok qs (ans(qid q \<mapsto> v))"
  by (auto simp add: answers_ok_def)

lemma session_ok_fire:
  assumes ok: "session_ok s"
  shows "session_ok (state_of (fire D e s))"
proof (cases e)
  case ClickStart
  have "session_ok (showSurveyScreen (s\<lparr>currentQuestionIndex := 0, answers := Map.empty\<rparr>))"
    using ok by (simp add: session_ok_def showSurveyScreen_def answers_ok_empty)
  then show ?thesis using ClickStart by (simp add: startSurvey_def session_ok_displayQuestion)
next
  case ClickPrev
  have "session_ok (s\<lparr>currentQuestionIndex := currentQuestionIndex s - 1\<rparr>)"
    using ok by (simp add: session_ok_def)
  then show ?thesis using ClickPrev ok
    by (simp add: previousQuestion_def session_ok_displayQuestion)
next
  case ClickNext
  have "session_ok (s\<lparr>currentQuestionIndex := currentQuestionIndex s + 1\<rparr>)"
    using ok by (simp add: session_ok_def)
  moreover have "session_ok (showResultsScreen s)"
    using ok by (simp add: session_ok_def showResultsScreen_def)
  ultimately show ?thesis using ClickNext ok
    by (simp add: nextQuestion_def completeSurvey_def session_ok_displayQuestion)
next
  case ClickRestart
  then show ?thesis using ok
    by (simp add: restartSurvey_def showWelcomeScreen_def session_ok_def answers_ok_empty)
next
  case (ClickOption k)
  show ?thesis
  proof (cases "container s")
    case NoInputs
    then show ?thesis using ClickOption ok by (simp add: clickOption_def)
  next
    case (TextArea q v)
    then show ?thesis using ClickOption ok by (simp add: clickOption_def)
  next
    case (Options q els)
    show ?thesis
    proof (cases "k < length els")
      case False
      then show ?thesis using ClickOption Options ok by (simp add: clickOption_def)
    next
      case True
      have w: "q \<in> set (questions (surveyData s))"
        "list_all (\<lambda>e. valid_answer q (writes e)) els"
        using ok Options by (simp_all add: session_ok_def)
      then have v: "valid_answer q (writes (els ! k))"
        using True by (simp add: list_all_length)
      have "session_ok (s\<lparr>container := Options q (select_only k els),
                 answers := (answers s)(qid q \<mapsto> writes (els ! k))\<rparr>)"
        using ok w v by (simp add: session_ok_def widget_ok_select_only answers_ok_update)
      then show ?thesis using ClickOption Options True
        by (simp add: clickOption_def session_ok_updateNav)
    qed
  qed
next
  case (InputText t)
  show ?thesis
  proof (cases "container s")
    case NoInputs
    then show ?thesis using InputText ok by (simp add: inputText_def)
  next
    case (Options q els)
    then show ?thesis using InputText ok by (simp add: inputText_def)
  next
    case (TextArea q v)
    have w: "q \<in> set (questions (surveyData s))" "qtype q = TextQuestion"
      using ok TextArea by (simp_all add: session_ok_def)
    have "session_ok (s\<lparr>container := TextArea q t, answers := (answers s)(qid q \<mapsto> Str t)\<rparr>)"
      using ok w by (simp add: session_ok_def answers_ok_update)
    then show ?thesis using InputText TextArea
      by (simp add: inputText_def session_ok_updateNav)
  qed
qed

lemma reachable_session_ok: "reachable D sv s \<Longrightarrow> session_ok s"
  by (induction rule: reachable.induct)
     (simp_all add: session_ok_fire, simp add: initial_app_def session_ok_def answers_ok_empty)

text \<open>
  Claim C3. With question ids unique within the definition (as the data model requires),
  in every reachable state the answer recorded for a rating question is an integer from
  1 to the question's scale, and the answer recorded for a multiple-choice question is one
  of the question's options. Answers are written by the input handlers only.
\<close>

theorem recorded_answers_valid:
  assumes reach: "reachable D sv s"
    and ids: "distinct (map qid (questions sv))"
    and q: "q \<in> set (questions sv)"
    and a: "answers s (qid q) = Some v"
  shows "(qtype q = Rating \<longrightarrow> (\<exists>i. v = Num i \<and> 1 \<le> i \<and> i \<le> scale q))
       \<and> (qtype q = MultipleChoice \<longrightarrow> (\<exists>t. v = Str t \<and> t \<in> set (options q)))"
proof -
  have sd: "surveyData s = sv" using reach by (rule reachable_surveyData)
  have "answers_ok (questions sv) (answers s)"
    using reachable_session_ok [OF reach] sd by (simp add: session_ok_def)
  then obtain q' where q': "q' \<in> set (questions sv)" "qid q' = qid q" "valid_answer q' v"
    using a by (auto simp add: answers_ok_def)
  have "q' = q"
    using ids q q' by (simp add: inj_on_eq_iff [OF iffD1 [OF distinct_map, THEN conjunct2]])
  then have "valid_answer q v" using q' by simp
  then show ?thesis by (cases v) auto
qed

lemma example_answered_answers:
  "answers example_answered = [1 \<mapsto> Str ''B'', 2 \<mapsto> Num 4]"
  by (simp add: example_answered_def example_started_eq survey_defs example_defs Let_def
        upto.simps)

lemma example_answered_reachable: "reachable no_match example_survey example_answered"
  unfolding example_answered_def
  by (intro reachable_step example_started_reachable)

theorem recorded_answers_valid_witness:
  "reachable no_match example_survey example_answered
   \<and> distinct (map qid (questions example_survey))
   \<and> example_q2 \<in> set (questions example_survey)
   \<and> answers example_answered (qid example_q2) = Some (Num 4)
   \<and> qtype example_q2 = Rating
   \<and> (\<exists>i. Num 4 = Num i \<and> 1 \<le> i \<and> i \<le> scale example_q2)
   \<and> example_q1 \<in> set (questions example_survey)
   \<and> answers example_answered (qid example_q1) = Some (Str ''B'')
   \<and> qtype example_q1 = MultipleChoice
   \<and> (\<exists>t. Str ''B'' = Str t \<and> t \<in> set (options example_q1))"
proof -
  have ids: "distinct (map qid (questions example_survey))" by (simp add: example_defs)
  have q: "example_q2 \<in> set (questions example_survey)" by (simp add: example_defs)
  have a: "answers example_answered (qid example_q2) = Some (Num 4)"
    by (simp add: example_answered_answers example_q2_def)
  have r: "qtype example_q2 = Rating" by (simp add: example_q2_def)
  have q1: "example_q1 \<in> set (questions example_survey)" by (simp add: example_defs)
  have a1: "answers example_answered (qid example_q1) = Some (Str ''B'')"
    by (simp add: example_answered_answers example_q1_def)
  have m: "qtype example_q1 = MultipleChoice" by (simp add: example_q1_def)
  show ?thesis
    using recorded_answers_valid [OF example_answered_reachable ids q a]
      recorded_answers_valid [OF example_answered_reachable ids q1 a1]
      ids q a r q1 a1 m example_answered_reachable
    by blast
qed


subsection \<open>The inputs shown belong to the current question\<close>

lemma shows_createInputs: "shows_question q (createInputs q)"
  by (cases "qtype q")
     (simp_all add: createInputs_def createMultipleChoiceOptions_def createRatingOptions_def
        createTextInput_def comp_def)

lemma shows_mark_found: "shows_question q w \<Longrightarrow> shows_question q (mark_found k w)"
  by (cases w) (simp_all add: writes_add_selected)

lemma shows_set_text: "shows_question q w \<Longrightarrow> shows_question q (set_text t w)"
  by (cases w) simp_all

lemma container_restore:
  "shows_question q' (container s) \<Longrightarrow>
   shows_question q' (container (state_of (restorePreviousAnswer D q s)))"
  by (auto simp add: restorePreviousAnswer_def restore_selected_def shows_mark_found
        shows_set_text split: option.splits question_type.splits query_result.splits)

lemma rendered_off_screen: "active s \<noteq> SurveyScreen \<Longrightarrow> rendered_current s"
  by (simp add: rendered_current_def split: option.splits)

lemma rendered_displayQuestion: "rendered_current (state_of (displayQuestion D s))"
proof (cases "at (questions (surveyData s)) (currentQuestionIndex s)")
  case None
  then show ?thesis by (simp add: displayQuestion_None rendered_current_def)
next
  case (Some q)
  have "shows_question q (container (nav_flags q (s\<lparr>container := createInputs q\<rparr>)))"
    by (simp add: shows_createInputs)
  then have "shows_question q (container (state_of (displayQuestion D s)))"
    using Some by (simp add: displayQuestion_Some container_restore)
  then show ?thesis using Some by (simp add: rendered_current_def)
qed

lemma rendered_updateNav:
  "rendered_current s \<Longrightarrow> rendered_current (state_of (updateNavigationButtons s))"
  by (simp add: rendered_current_def split: option.splits)

lemma rendered_fire:
  assumes r: "rendered_current s"
  shows "rendered_current (state_of (fire D e s))"
proof (cases e)
  case ClickStart
  then show ?thesis by (simp add: startSurvey_def rendered_displayQuestion)
next
  case ClickPrev
  then show ?thesis using r by (simp add: previousQuestion_def rendered_displayQuestion)
next
  case ClickNext
  then show ?thesis using r
    by (simp add: nextQuestion_def rendered_displayQuestion completeSurvey_def
          showResultsScreen_def rendered_off_screen)
next
  case ClickRestart
  then show ?thesis
    by (simp add: restartSurvey_def showWelcomeScreen_def rendered_off_screen)
next
  case (ClickOption k)
  show ?thesis
  proof (cases "container s")
    case (Options q els)
    have "rendered_current (s\<lparr>container := Options q (select_only k els),
             answers := (answers s)(qid q \<mapsto> writes (els ! k))\<rparr>)"
      using r Options
      by (auto simp add: rendered_current_def select_only_def writes_add_selected comp_def
            split: option.splits if_splits)
    then show ?thesis using ClickOption Options r
      by (simp add: clickOption_def rendered_updateNav)
  qed (use ClickOption r in \<open>simp_all add: clickOption_def\<close>)
next
  case (InputText t)
  show ?thesis
  proof (cases "container s")
    case (TextArea q v)
    have "rendered_current (s\<lparr>container := TextArea q t,
             answers := (answers s)(qid q \<mapsto> Str t)\<rparr>)"
      using r TextArea
      by (auto simp add: rendered_current_def split: option.splits if_splits)
    then show ?thesis using InputText TextArea
      by (simp add: inputText_def rendered_updateNav)
  qed (use InputText r in \<open>simp_all add: inputText_def\<close>)
qed

lemma reachable_rendered: "reachable D sv s \<Longrightarrow> rendered_current s"
  by (induction rule: reachable.induct)
     (simp_all add: rendered_fire rendered_off_screen initial_app_def)

lemma inputs_record_for_current:
  assumes reach: "reachable D sv s"
    and scr: "active s = SurveyScreen"
    and cur: "at (questions sv) (currentQuestionIndex s) = Some q"
  shows "qtype q = TextQuestion \<Longrightarrow>
           answers (state_of (fire D (InputText t) s)) (qid q) = Some (Str t)"
    and "qtype q = MultipleChoice \<Longrightarrow> k < length (options q) \<Longrightarrow>
           answers (state_of (fire D (ClickOption k) s)) (qid q) = Some (Str (options q ! k))"
    and "qtype q = Rating \<Longrightarrow> 1 \<le> i \<Longrightarrow> i \<le> scale q \<Longrightarrow>
           answers (state_of (fire D (ClickOption (nat (i - 1))) s)) (qid q) = Some (Num i)"
proof -
  have sd: "surveyData s = sv" using reach by (rule reachable_surveyData)
  have sh: "shows_question q (container s)"
    using reachable_rendered [OF reach] scr cur sd by (simp add: rendered_current_def)
  show "qtype q = TextQuestion \<Longrightarrow>
           answers (state_of (fire D (InputText t) s)) (qid q) = Some (Str t)"
    using sh by (cases "container s") (simp_all add: inputText_def)
  show "qtype q = MultipleChoice \<Longrightarrow> k < length (options q) \<Longrightarrow>
           answers (state_of (fire D (ClickOption k) s)) (qid q) = Some (Str (options q ! k))"
  proof -
    assume ty: "qtype q = MultipleChoice" and k: "k < length (options q)"
    then obtain els where c: "container s = Options q els"
      and w: "map writes els = map Str (options q)"
      using sh by (cases "container s") simp_all
    have len: "length els = length (options q)" using w by (metis length_map)
    have "writes (els ! k) = Str (options q ! k)"
      using w k len by (metis nth_map)
    then show ?thesis using c k len by (simp add: clickOption_def)
  qed
  show "qtype q = Rating \<Longrightarrow> 1 \<le> i \<Longrightarrow> i \<le> scale q \<Longrightarrow>
           answers (state_of (fire D (ClickOption (nat (i - 1))) s)) (qid q) = Some (Num i)"
  proof -
    assume ty: "qtype q = Rating" and lo: "1 \<le> i" and hi: "i \<le> scale q"
    then obtain els where c: "container s = Options q els"
      and w: "map writes els = map Num [1 .. scale q]"
      using sh by (cases "container s") simp_all
    have len: "length els = nat (scale q)" using w by (metis length_map length_upto diff_add_cancel add_diff_cancel_right' add.commute)
    have k: "nat (i - 1) < length els" using lo hi len by simp
    have "writes (els ! nat (i - 1)) = (map Num [1 .. scale q]) ! nat (i - 1)"
      using w k by (metis nth_map)
    also have "\<dots> = Num i" using lo hi k len by (simp add: nth_upto)
    finally show ?thesis using c k by (simp add: clickOption_def)
  qed
qed


section \<open>Properties of the categories service\<close>

subsection \<open>Lookups\<close>

lemma first_index_None: "first_index P xs = None \<longleftrightarrow> (\<forall>x \<in> set xs. \<not> P x)"
  by (induction xs) auto

lemma find_None: "find P xs = None \<longleftrightarrow> (\<forall>x \<in> set xs. \<not> P x)"
  by (auto simp add: find_None_iff)

subsection \<open>The example requests, evaluated\<close>

lemmas server_defs =
  post_category_def put_category_def delete_category_def get_category_def put_update_def
  update_fields_def same_id_def toLowerCase_def lower_char_def trim_def js_whitespace_def
  empty_store_def

lemmas request_defs = post_ops_def post_padded_ops_def ops_store_def rename_ops_def

lemma ops_store_eq:
  "ops_store =
     \<lparr>categories =
        [\<lparr>cat_id = 1, name = ''Ops'', description = JStr [], color = JStr ''#667eea'',
          createdAt = ''t1'', updatedAt = ''t1''\<rparr>],
      nextCategoryId = 2\<rparr>"
  by (simp add: request_defs server_defs Let_def)

lemma padded_post_accepted:
  "handle post_padded_ops ops_store =
     (Success 201
        \<lparr>cat_id = 2, name = ''Ops'', description = JStr [], color = JStr ''#667eea'',
         createdAt = ''t2'', updatedAt = ''t2''\<rparr>
        ''Category created successfully'',
      \<lparr>categories =
        [\<lparr>cat_id = 1, name = ''Ops'', description = JStr [], color = JStr ''#667eea'',
          createdAt = ''t1'', updatedAt = ''t1''\<rparr>,
         \<lparr>cat_id = 2, name = ''Ops'', description = JStr [], color = JStr ''#667eea'',
          createdAt = ''t2'', updatedAt = ''t2''\<rparr>],
       nextCategoryId = 3\<rparr>)"
  by (simp add: ops_store_eq post_padded_ops_def server_defs Let_def)

subsection \<open>Unknown identifiers\<close>

text \<open>
  Claim C7. For an identifier that no stored category has, reading, updating and deleting
  by that identifier each answer 404 "Category not found", and the update and the
  deletion leave the store as it was (reading never changes it).
\<close>

theorem unknown_id_not_found:
  assumes "\<forall>c \<in> set (categories st). i \<noteq> Some (cat_id c)"
  shows "get_category i st = Failure 404 ''Category not found''
       \<and> put_category i b t st = (Failure 404 ''Category not found'', st)
       \<and> delete_category i st = (Failure 404 ''Category not found'', st)"
proof -
  have "\<forall>c \<in> set (categories st). \<not> same_id i c"
    using assms by (simp add: same_id_def)
  then have "find (same_id i) (categories st) = None"
    and "first_index (same_id i) (categories st) = None"
    by (simp_all add: find_None first_index_None)
  then show ?thesis
    by (simp add: get_category_def put_category_def delete_category_def)
qed

theorem unknown_id_not_found_witness:
  "map cat_id (categories ops_store) = [1]
   \<and> get_category (Some 7) ops_store = Failure 404 ''Category not found''
   \<and> put_category (Some 7) rename_ops ''t3'' ops_store
        = (Failure 404 ''Category not found'', ops_store)
   \<and> delete_category (Some 7) ops_store = (Failure 404 ''Category not found'', ops_store)"
proof -
  have h: "\<forall>c \<in> set (categories ops_store). Some 7 \<noteq> Some (cat_id c)"
    by (simp add: ops_store_eq)
  have ids: "map cat_id (categories ops_store) = [1]" by (simp add: ops_store_eq)
  show ?thesis using unknown_id_not_found [OF h] ids by blast
qed

subsection \<open>Names that differ by surrounding white space\<close>

text \<open>
  A creation whose name, as sent, equals a stored name up to case is answered 400 and
  leaves the store as it was.
\<close>

lemma post_existing_name_rejected:
  assumes "body_name b = Some (JStr n)"
    and "c \<in> set (categories st)"
    and "toLowerCase (name c) = toLowerCase n"
  shows "\<exists>msg. post_category b created updated st = (Failure 400 msg, st)"
proof -
  have "find (\<lambda>c. toLowerCase (name c) = toLowerCase n) (categories st) \<noteq> None"
    using assms(2,3) by (auto simp add: find_None_iff)
  then show ?thesis using assms(1)
    by (auto simp add: post_category_def split: option.splits)
qed

text \<open>
  Claim C6, at a failing input. The creation compares the name as sent and stores it
  trimmed: after creating "Ops", creating " Ops" (with a leading space) is accepted with
  201 and stored as "Ops", so the collection holds the same name twice.
\<close>

theorem padded_name_stored_twice:
  "status (fst (handle post_padded_ops ops_store)) = 201
   \<and> map name (categories (run [post_ops, post_padded_ops] empty_store)) = [''Ops'', ''Ops'']
   \<and> \<not> distinct (map toLowerCase
            (map name (categories (run [post_ops, post_padded_ops] empty_store))))"
proof -
  have "run [post_ops, post_padded_ops] empty_store = snd (handle post_padded_ops ops_store)"
    by (simp add: ops_store_def)
  then show ?thesis by (simp add: padded_post_accepted)
qed

subsection \<open>Renaming a category to its own name\<close>

lemma find_first_index:
  "find P xs = Some x \<Longrightarrow> \<exists>k. first_index P xs = Some k \<and> k < length xs \<and> xs ! k = x"
proof (induction xs)
  case Nil
  then show ?case by simp
next
  case (Cons y ys)
  show ?case
  proof (cases "P y")
    case True
    then show ?thesis using Cons.prems by simp
  next
    case False
    then have "find P ys = Some x" using Cons.prems by simp
    then obtain k where "first_index P ys = Some k" "k < length ys" "ys ! k = x"
      using Cons.IH by blast
    then show ?thesis using False by simp
  qed
qed

lemma trim_blank: "trim s = [] \<longleftrightarrow> (\<forall>c \<in> set s. js_whitespace c)"
proof
  assume "trim s = []"
  then have d: "\<forall>c \<in> set (dropWhile js_whitespace s). js_whitespace c"
    by (simp add: trim_def dropWhile_eq_Nil_conv)
  have "dropWhile js_whitespace s = []"
  proof (rule ccontr)
    assume ne: "dropWhile js_whitespace s \<noteq> []"
    then have "\<not> js_whitespace (hd (dropWhile js_whitespace s))" by (rule hd_dropWhile)
    moreover have "hd (dropWhile js_whitespace s) \<in> set (dropWhile js_whitespace s)"
      using ne by simp
    ultimately show False using d by blast
  qed
  then show "\<forall>c \<in> set s. js_whitespace c" by (simp add: dropWhile_eq_Nil_conv)
next
  assume "\<forall>c \<in> set s. js_whitespace c"
  then show "trim s = []" by (auto simp add: trim_def dest: set_dropWhileD)
qed

lemma whitespace_lower_char: "js_whitespace (lower_char c) = js_whitespace c"
  by (simp add: js_whitespace_def lower_char_def Let_def)

lemma blank_toLowerCase:
  "(\<forall>c \<in> set (toLowerCase s). js_whitespace c) = (\<forall>c \<in> set s. js_whitespace c)"
  by (simp add: toLowerCase_def whitespace_lower_char)

lemma trim_blank_lower: "toLowerCase n = toLowerCase m \<Longrightarrow> (trim n = []) = (trim m = [])"
  using blank_toLowerCase [of n] blank_toLowerCase [of m] by (simp add: trim_blank)

lemma put_own_name:
  assumes found: "find (same_id i) (categories st) = Some c"
    and nm: "body_name b = Some (JStr n)"
    and same: "toLowerCase n = toLowerCase (name c)"
    and nonblank: "trim (name c) \<noteq> []"
    and others: "\<forall>c' \<in> set (categories st).
                   \<not> same_id i c' \<longrightarrow> toLowerCase (name c') \<noteq> toLowerCase (name c)"
  shows "\<exists>c'. fst (put_category i b t st) = Success 200 c' ''Category updated successfully''
            \<and> cat_id c' = cat_id c \<and> name c' = trim n"
proof -
  obtain k where k: "first_index (same_id i) (categories st) = Some k"
      "k < length (categories st)" "categories st ! k = c"
    using find_first_index [OF found] by blast
  have tn: "trim n \<noteq> []" using trim_blank_lower [OF same] nonblank by simp
  have "find (\<lambda>c'. \<not> same_id i c' \<and> toLowerCase (name c') = toLowerCase n) (categories st) = None"
    using others same by (auto simp add: find_None_iff)
  then have "put_category i b t st = put_update k b t st"
    using k nm tn by (simp add: put_category_def)
  then show ?thesis using k nm
    by (simp add: put_update_def update_fields_def Let_def split: option.splits)
qed

lemma trim_has_nonblank: "trim n \<noteq> [] \<Longrightarrow> \<exists>c \<in> set (trim n). \<not> js_whitespace c"
proof -
  assume ne: "trim n \<noteq> []"
  define e where "e = dropWhile js_whitespace (rev (dropWhile js_whitespace n))"
  have "e \<noteq> []" using ne by (simp add: trim_def e_def)
  then have "\<not> js_whitespace (hd e)" unfolding e_def by (rule hd_dropWhile)
  moreover have "hd e \<in> set (trim n)" using \<open>e \<noteq> []\<close> by (simp add: trim_def e_def)
  ultimately show ?thesis by blast
qed

lemma trim_trim_nonblank: "trim n \<noteq> [] \<Longrightarrow> trim (trim n) \<noteq> []"
  using trim_has_nonblank [of n] by (auto simp add: trim_blank)

lemma names_nonblank_post:
  "names_nonblank st \<Longrightarrow> names_nonblank (snd (post_category b created updated st))"
  by (auto simp add: post_category_def names_nonblank_def Let_def trim_trim_nonblank
        split: option.splits json.splits)

lemma name_update_fields:
  "trim (name c) \<noteq> [] \<Longrightarrow>
   (\<forall>n. body_name b = Some (JStr n) \<longrightarrow> trim n \<noteq> []) \<Longrightarrow>
   trim (name (update_fields b t c)) \<noteq> []"
  by (auto simp add: update_fields_def Let_def trim_trim_nonblank
        split: option.splits json.splits)

lemma names_nonblank_put_update:
  assumes "names_nonblank st" and "k < length (categories st)"
    and "\<forall>n. body_name b = Some (JStr n) \<longrightarrow> trim n \<noteq> []"
  shows "names_nonblank (snd (put_update k b t st))"
proof -
  have all: "\<forall>c \<in> set (categories st). trim (name c) \<noteq> []"
    using assms(1) by (simp add: names_nonblank_def list_all_iff)
  then have "trim (name (categories st ! k)) \<noteq> []" using assms(2) by simp
  then have "trim (name (update_fields b t (categories st ! k))) \<noteq> []"
    using assms(3) by (rule name_update_fields)
  then show ?thesis
    using all set_update_subset_insert [of "categories st" k]
    by (auto simp add: put_update_def names_nonblank_def list_all_iff Let_def)
qed

lemma first_index_less: "first_index P xs = Some k \<Longrightarrow> k < length xs"
  by (induction xs arbitrary: k) (auto split: if_splits)

lemma names_nonblank_put:
  assumes "names_nonblank st"
  shows "names_nonblank (snd (put_category i b t st))"
proof (cases "first_index (same_id i) (categories st)")
  case None
  then show ?thesis using assms by (simp add: put_category_def)
next
  case (Some k)
  have k: "k < length (categories st)" using Some by (rule first_index_less)
  show ?thesis
  proof (cases "body_name b")
    case None
    then show ?thesis using Some assms k
      by (simp add: put_category_def names_nonblank_put_update)
  next
    case (Some v)
    note bn = Some
    show ?thesis
    proof (cases v)
      case (JStr n)
      show ?thesis
      proof (cases "trim n = []")
        case True
        then show ?thesis
          using \<open>first_index (same_id i) (categories st) = Some k\<close> bn JStr assms
          by (simp add: put_category_def)
      next
        case False
        have "\<forall>m. body_name b = Some (JStr m) \<longrightarrow> trim m \<noteq> []"
          using bn JStr False by simp
        then have "names_nonblank (snd (put_update k b t st))"
          using assms k by (simp add: names_nonblank_put_update)
        then show ?thesis
          using \<open>first_index (same_id i) (categories st) = Some k\<close> bn JStr assms False
          by (simp add: put_category_def split: option.splits)
      qed
    qed (use \<open>first_index (same_id i) (categories st) = Some k\<close> bn assms
          in \<open>simp_all add: put_category_def\<close>)
  qed
qed

lemma names_nonblank_delete:
  "names_nonblank st \<Longrightarrow> names_nonblank (snd (delete_category i st))"
  by (auto simp add: delete_category_def names_nonblank_def list_all_iff
        split: option.splits dest: in_set_takeD in_set_dropD)

lemma names_nonblank_handle: "names_nonblank st \<Longrightarrow> names_nonblank (snd (handle r st))"
  by (cases r) (simp_all add: names_nonblank_post names_nonblank_put names_nonblank_delete)

lemma names_nonblank_run: "names_nonblank st \<Longrightarrow> names_nonblank (run rs st)"
  by (induction rs arbitrary: st) (simp_all add: names_nonblank_handle)

lemma find_in_set: "find P xs = Some x \<Longrightarrow> x \<in> set xs"
  by (auto simp add: find_Some_iff)

text \<open>
  Claim C10, as stated, fails in a store that holds the name twice: there the update of
  the first category to its own name is answered 400, because the other category bears
  the name.
\<close>

theorem own_name_rejected_counterexample:
  "map cat_id (categories (run [post_ops, post_padded_ops] empty_store)) = [1, 2]
   \<and> map name (categories (run [post_ops, post_padded_ops] empty_store)) = [''Ops'', ''Ops'']
   \<and> body_name rename_ops = Some (JStr ''Ops'')
   \<and> put_category (Some 1) rename_ops ''t3'' (run [post_ops, post_padded_ops] empty_store)
        = (Failure 400 ''Category with this name already exists'',
           run [post_ops, post_padded_ops] empty_store)"
proof -
  have "run [post_ops, post_padded_ops] empty_store = snd (handle post_padded_ops ops_store)"
    by (simp add: ops_store_def)
  then show ?thesis
    by (simp add: padded_post_accepted rename_ops_def server_defs)
qed

text \<open>
  Claim C10, amended. In a store reached from the empty one, an update whose name equals
  the current name of the category it addresses, up to case, is answered 200 with the
  trimmed name, provided no category with another identifier bears that name up to case:
  the duplicate check skips the category being updated.
\<close>

theorem rename_to_own_name:
  assumes found: "find (same_id i) (categories (run rs empty_store)) = Some c"
    and nm: "body_name b = Some (JStr n)"
    and same: "toLowerCase n = toLowerCase (name c)"
    and others: "\<forall>c' \<in> set (categories (run rs empty_store)).
                   \<not> same_id i c' \<longrightarrow> toLowerCase (name c') \<noteq> toLowerCase (name c)"
  shows "\<exists>c'. fst (put_category i b t (run rs empty_store))
               = Success 200 c' ''Category updated successfully''
            \<and> cat_id c' = cat_id c \<and> name c' = trim n"
proof -
  have "names_nonblank empty_store" by (simp add: names_nonblank_def empty_store_def)
  then have "names_nonblank (run rs empty_store)" by (rule names_nonblank_run)
  then have "trim (name c) \<noteq> []"
    using find_in_set [OF found] by (simp add: names_nonblank_def list_all_iff)
  then show ?thesis using put_own_name [OF found nm same _ others] by blast
qed

theorem rename_to_own_name_witness:
  "find (same_id (Some 1)) (categories (run [post_ops] empty_store))
      = Some (hd (categories (run [post_ops] empty_store)))
   \<and> body_name rename_ops = Some (JStr ''Ops'')
   \<and> toLowerCase ''Ops'' = toLowerCase (name (hd (categories (run [post_ops] empty_store))))
   \<and> (\<exists>c'. fst (put_category (Some 1) rename_ops ''t3'' (run [post_ops] empty_store))
               = Success 200 c' ''Category updated successfully''
            \<and> cat_id c' = 1 \<and> name c' = ''Ops'')"
proof -
  have st: "run [post_ops] empty_store = ops_store" by (simp add: ops_store_def)
  have found: "find (same_id (Some 1)) (categories (run [post_ops] empty_store))
      = Some (hd (categories (run [post_ops] empty_store)))"
    unfolding st by (simp add: ops_store_eq same_id_def)
  have nm: "body_name rename_ops = Some (JStr ''Ops'')" by (simp add: rename_ops_def)
  have same: "toLowerCase ''Ops''
      = toLowerCase (name (hd (categories (run [post_ops] empty_store))))"
    unfolding st by (simp add: ops_store_eq)
  have others: "\<forall>c' \<in> set (categories (run [post_ops] empty_store)).
       \<not> same_id (Some 1) c' \<longrightarrow>
         toLowerCase (name c')
           \<noteq> toLowerCase (name (hd (categories (run [post_ops] empty_store))))"
    unfolding st by (simp add: ops_store_eq same_id_def)
  have tr: "trim ''Ops'' = ''Ops''" by (simp add: trim_def js_whitespace_def)
  have c1: "cat_id (hd (categories (run [post_ops] empty_store))) = 1"
    unfolding st by (simp add: ops_store_eq)
  show ?thesis
    using rename_to_own_name [OF found nm same others, of "''t3''"] found nm same tr c1
    by (simp del: run.simps)
qed


section \<open>Restoring a recorded answer\<close>

subsection \<open>Decimal texts\<close>

lemma digit_char_plain: "d < 10 \<Longrightarrow> css_plain (digit_char d)"
proof -
  have "list_all css_plain ''0123456789''"
    by (simp add: css_plain_def css_newline_def dquote_def backslash_def)
  then show "d < 10 \<Longrightarrow> css_plain (digit_char d)"
    by (simp add: list_all_length digit_char_def)
qed

lemma digit_char_value: "d < 10 \<Longrightarrow> of_char (digit_char d) = 48 + d"
proof -
  have "list_all (\<lambda>(c, k). of_char c = 48 + k) (zip ''0123456789'' [0 ..< 10])"
    by (simp add: upt_rec)
  then show "d < 10 \<Longrightarrow> of_char (digit_char d) = 48 + d"
    by (simp add: list_all_length digit_char_def)
qed

lemma string_of_nat_plain: "list_all css_plain (string_of_nat n)"
proof (induction n rule: string_of_nat.induct)
  case (1 n)
  show ?case
  proof (cases "n < 10")
    case True
    then show ?thesis by (simp add: string_of_nat.simps [of n] digit_char_plain)
  next
    case False
    then show ?thesis using 1 by (simp add: string_of_nat.simps [of n] digit_char_plain)
  qed
qed

lemma digits_value_snoc:
  "digits_value (s @ [c]) = 10 * digits_value s + (of_char c - 48)"
  by (simp add: digits_value_def)

lemma digits_value_single: "digits_value [c] = of_char c - 48"
  by (simp add: digits_value_def)

lemma digits_value_string_of_nat: "digits_value (string_of_nat n) = n"
proof (induction n rule: string_of_nat.induct)
  case (1 n)
  show ?case
  proof (cases "n < 10")
    case True
    then have "string_of_nat n = [digit_char n]" by (simp add: string_of_nat.simps [of n])
    then show ?thesis using True by (simp add: digits_value_single digit_char_value)
  next
    case False
    then have ih: "digits_value (string_of_nat (n div 10)) = n div 10" using 1 by simp
    have "string_of_nat n = string_of_nat (n div 10) @ [digit_char (n mod 10)]"
      using False by (subst string_of_nat.simps) simp
    then have "digits_value (string_of_nat n) = 10 * (n div 10) + n mod 10"
      by (simp add: digits_value_snoc ih digit_char_value)
    then show ?thesis by simp
  qed
qed

lemma string_of_nat_inj: "string_of_nat m = string_of_nat n \<Longrightarrow> m = n"
  by (metis digits_value_string_of_nat)

lemma string_of_int_inj:
  "0 \<le> i \<Longrightarrow> 0 \<le> j \<Longrightarrow> string_of_int i = string_of_int j \<Longrightarrow> i = j"
proof -
  assume "0 \<le> i" "0 \<le> j" "string_of_int i = string_of_int j"
  then have "string_of_nat (nat i) = string_of_nat (nat j)" by (simp add: string_of_int_def)
  then have "nat i = nat j" by (rule string_of_nat_inj)
  then show "i = j" using \<open>0 \<le> i\<close> \<open>0 \<le> j\<close> by simp
qed

lemma string_of_int_plain: "0 \<le> i \<Longrightarrow> list_all css_plain (string_of_int i)"
  by (simp add: string_of_int_def string_of_nat_plain)

lemma first_index_upto:
  assumes "\<And>x. l \<le> x \<Longrightarrow> x \<le> n \<Longrightarrow> f x = f i \<Longrightarrow> x = i"
    and "l \<le> i" and "i \<le> n"
  shows "first_index (\<lambda>x. f x = f i) [l .. n] = Some (nat (i - l))"
  using assms
proof (induction l n rule: upto.induct)
  case (1 l n)
  note inj = "1.prems"(1) and li = "1.prems"(2) and i_n = "1.prems"(3)
  have ln: "l \<le> n" using li i_n by simp
  show ?case
  proof (cases "i = l")
    case True
    then show ?thesis using ln by (simp add: upto_rec1)
  next
    case False
    have "f l \<noteq> f i"
    proof
      assume "f l = f i"
      then have "l = i" using inj [of l] ln by simp
      then show False using False by simp
    qed
    moreover have "first_index (\<lambda>x. f x = f i) [l + 1 .. n] = Some (nat (i - (l + 1)))"
    proof (rule "1.IH" [OF ln])
      show "\<And>x. l + 1 \<le> x \<Longrightarrow> x \<le> n \<Longrightarrow> f x = f i \<Longrightarrow> x = i"
        using inj by simp
      show "l + 1 \<le> i" using li False by simp
      show "i \<le> n" by (rule i_n)
    qed
    moreover have "Suc (nat (i - (l + 1))) = nat (i - l)" using li False by simp
    ultimately show ?thesis using ln by (simp add: upto_rec1)
  qed
qed

subsection \<open>Where the answer is restored\<close>

text \<open>
  Displaying a question whose answer is recorded shows the answer again when the answer
  is a text, a rating within the scale, or an option free of the characters that are
  special inside a CSS string.
\<close>

lemma plain_selector: "list_all css_plain X \<Longrightarrow> data_value_selector X = AttrEquals X"
proof -
  assume "list_all css_plain X"
  then have d: "dropWhile css_plain X = []" by (simp add: dropWhile_eq_Nil_conv list_all_iff)
  show ?thesis unfolding data_value_selector_def d by simp
qed

lemma first_index_map: "first_index P (map f xs) = first_index (\<lambda>x. P (f x)) xs"
  by (induction xs) simp_all

lemma text_restored:
  assumes cur: "at (questions (surveyData s)) (currentQuestionIndex s) = Some q"
    and ty: "qtype q = TextQuestion"
    and a: "answers s (qid q) = Some (Str v)"
  shows "\<exists>s'. displayQuestion D s = Done s' \<and> container s' = TextArea q v"
  using assms
  by (simp add: displayQuestion_Some restorePreviousAnswer_def createInputs_def
        createTextInput_def)

lemma choice_restored:
  assumes cur: "at (questions (surveyData s)) (currentQuestionIndex s) = Some q"
    and ty: "qtype q = MultipleChoice"
    and a: "answers s (qid q) = Some (Str v)"
    and ne: "v \<noteq> []"
    and plain: "list_all css_plain v"
    and k: "first_index (\<lambda>opt. opt = v) (options q) = Some k"
  shows "\<exists>s'. displayQuestion D s = Done s'
           \<and> container s' = mark_found k (createMultipleChoiceOptions q)"
proof -
  have "querySelector D v (data_values (createMultipleChoiceOptions q)) = Found k"
    using k by (simp add: querySelector_def plain_selector [OF plain]
        createMultipleChoiceOptions_def first_index_map comp_def)
  then show ?thesis using cur ty a ne
    by (simp add: displayQuestion_Some restorePreviousAnswer_def restore_selected_def
          createInputs_def)
qed

lemma rating_restored:
  assumes cur: "at (questions (surveyData s)) (currentQuestionIndex s) = Some q"
    and ty: "qtype q = Rating"
    and a: "answers s (qid q) = Some (Num i)"
    and lo: "1 \<le> i" and hi: "i \<le> scale q"
  shows "\<exists>s'. displayQuestion D s = Done s'
           \<and> container s' = mark_found (nat (i - 1)) (createRatingOptions q)"
proof -
  have "first_index (\<lambda>x. string_of_int x = string_of_int i) [1 .. scale q]
          = Some (nat (i - 1))"
  proof (rule first_index_upto [OF _ lo hi])
    fix x :: int
    assume "1 \<le> x" "x \<le> scale q" "string_of_int x = string_of_int i"
    then show "x = i" using lo by (intro string_of_int_inj) simp_all
  qed
  moreover have "list_all css_plain (string_of_int i)"
    using lo by (intro string_of_int_plain) simp
  ultimately have "querySelector D (string_of_int i) (data_values (createRatingOptions q))
      = Found (nat (i - 1))"
    by (simp add: querySelector_def plain_selector createRatingOptions_def first_index_map
          comp_def)
  then show ?thesis using cur ty a lo
    by (simp add: displayQuestion_Some restorePreviousAnswer_def restore_selected_def
          createInputs_def)
qed

lemma selected_after_mark:
  assumes "k < length xs" and "\<And>x. \<not> selected (mk x)"
  shows "map selected (add_selected k (map mk xs)) = map (\<lambda>j. j = k) [0 ..< length xs]"
  using assms
  by (auto simp add: add_selected_def nth_list_update intro!: nth_equalityI split: if_splits)

subsection \<open>An option that is not restored\<close>

lemma quoted_selector: "data_value_selector quoted_option = InvalidSelector"
  by (simp add: data_value_selector_def quoted_option_def css_plain_def css_newline_def
        css_whitespace_def may_continue_def dquote_def backslash_def)

lemma quoted_answered_eq:
  "quoted_answered D =
     \<lparr>surveyData = quoted_survey, currentQuestionIndex = 1,
      answers = [1 \<mapsto> Str quoted_option],
      active = SurveyScreen, prev_disabled = False, next_disabled = False,
      next_text = ''Complete Survey'',
      container = TextArea example_q3 [],
      summary = Items []\<rparr>"
  by (simp add: quoted_answered_def quoted_initial_def quoted_survey_def quoted_q_def
        example_q3_def survey_defs Let_def)

text \<open>
  Claim C5, at a failing input. The first question offers the option \<open>Say "hi"\<close>. After
  choosing it, going to the next question and back, \<open>displayQuestion\<close> rebuilds the
  options and \<open>restorePreviousAnswer\<close> asks for \<open>[data-value="Say "hi""]\<close>, which is
  not a selector: \<open>querySelector\<close> throws, and no option is selected although the
  answer is still recorded.
\<close>

theorem quoted_option_not_restored:
  "fire D ClickPrev (quoted_answered D) =
     Raised SyntaxError
       \<lparr>surveyData = quoted_survey, currentQuestionIndex = 0,
        answers = [1 \<mapsto> Str quoted_option],
        active = SurveyScreen, prev_disabled = True, next_disabled = False,
        next_text = ''Next'',
        container = Options quoted_q
          [\<lparr>data_value = quoted_option, selected = False, writes = Str quoted_option\<rparr>,
           \<lparr>data_value = ''No'', selected = False, writes = Str ''No''\<rparr>],
        summary = Items []\<rparr>"
proof -
  have ne: "quoted_option \<noteq> []" by (simp add: quoted_option_def)
  show ?thesis
    by (simp add: quoted_answered_eq quoted_survey_def quoted_q_def example_q3_def survey_defs
          querySelector_def quoted_selector ne Let_def)
qed

end
